theory Spec2Isabelle
  imports Main "HOL-Library.Sublist"
begin

section \<open>Strings and URL descriptors\<close>

text \<open>
  JavaScript strings are modelled as \<^typ>\<open>string\<close>. \<open>String.prototype.indexOf\<close> returns
  the position of the first occurrence of the needle, or \<open>-1\<close> when there is none; the
  empty needle is found at position \<open>0\<close>.
\<close>

fun indexOf_from :: "string \<Rightarrow> string \<Rightarrow> nat \<Rightarrow> int" where
  "indexOf_from [] t i = (if t = [] then int i else - 1)"
| "indexOf_from (c # cs) t i =
     (if prefix t (c # cs) then int i else indexOf_from cs t (Suc i))"

definition indexOf :: "string \<Rightarrow> string \<Rightarrow> int" where
  "indexOf s t = indexOf_from s t 0"

text \<open>The \<open>URLDescriptor\<close> of the \<open>navi\<close> package: \<open>{ pathname, search, hash, query, href }\<close>.\<close>

record URLDescriptor =
  pathname :: string
  search :: string
  hash :: string
  query :: "(string \<times> string) list"
  href :: string

text \<open>\<open>Partial<URLDescriptor>\<close>: every field may be absent.\<close>

record PartialURLDescriptor =
  pathname_opt :: "string option"
  search_opt :: "string option"
  hash_opt :: "string option"
  query_opt :: "(string \<times> string) list option"
  href_opt :: "string option"

text \<open>
  The \<open>href\<close> argument of the link helpers has type \<open>string | Partial<URLDescriptor>\<close>;
  the helpers also test it for falsiness, so \<open>undefined\<close> is a value of the model.
\<close>

datatype Href = HrefUndefined | HrefString string | HrefDescriptor PartialURLDescriptor

datatype error = InvalidURL | TypeError

datatype TrailingSlashAction = Add | Remove

text \<open>
  Modelled from the spec: \<open>modifyTrailingSlash\<close> is imported from the \<open>navi\<close> package and its
  body is not among the source files. Following the spec (``trailing slash normalized per
  operation context (\<open>add\<close>/\<open>remove\<close>)'', ``\<open>pathname\<close> always begins with \<open>/\<close>''), \<open>add\<close>
  appends a slash to a pathname that does not end in one, and \<open>remove\<close> takes the trailing
  slash off a pathname that ends in one, except for the root pathname \<open>/\<close>, which must keep
  its leading slash.
\<close>

definition hasTrailingSlash :: "string \<Rightarrow> bool" where
  "hasTrailingSlash p = (p \<noteq> [] \<and> last p = CHR ''/'')"

definition modifyTrailingSlash :: "string \<Rightarrow> TrailingSlashAction \<Rightarrow> string" where
  "modifyTrailingSlash p action =
     (if action = Add \<and> \<not> hasTrailingSlash p then p @ ''/''
      else if action = Remove \<and> hasTrailingSlash p \<and> length p > 1 then butlast p
      else p)"

section \<open>Link helpers\<close>

text \<open>
  \<open>isExternalHref\<close>: a falsy href, or a string href that contains \<open>://\<close> or starts with
  \<open>mailto:\<close>. A descriptor object is truthy and not a string, so it is never external.
\<close>

fun isExternalHref :: "Href \<Rightarrow> bool" where
  "isExternalHref HrefUndefined = True"
| "isExternalHref (HrefString s) =
     (s = [] \<or> indexOf s ''://'' \<noteq> - 1 \<or> indexOf s ''mailto:'' = 0)"
| "isExternalHref (HrefDescriptor d) = False"

text \<open>
  \<open>createURLDescriptor\<close> and \<open>joinPaths\<close> are imported from the \<open>navi\<close> package; the link
  helpers are modelled for any implementation of the two, passed as parameters.
  \<open>createURLDescriptor\<close> may throw, so it returns a sum.

  \<open>resolveHref\<close> is the step ``resolve relative to the current directory'' that
  \<open>getLinkURL\<close> and \<open>useLinkProps\<close> both perform: a string href that does not start with
  \<open>/\<close> is joined onto the pathname of the current route, when there is one.
\<close>

fun resolveHref :: "(string list \<Rightarrow> string) \<Rightarrow> Href \<Rightarrow> URLDescriptor option \<Rightarrow> Href" where
  "resolveHref joinPaths (HrefString s) (Some routeURL) =
     (if (case s of [] \<Rightarrow> False | c # _ \<Rightarrow> c = CHR ''/'') then HrefString s
      else HrefString (joinPaths [''/'', pathname routeURL, s]))"
| "resolveHref joinPaths h routeURL = h"

definition getLinkURL ::
  "(Href \<Rightarrow> error + URLDescriptor) \<Rightarrow> (string list \<Rightarrow> string) \<Rightarrow>
   Href \<Rightarrow> URLDescriptor option \<Rightarrow> error + URLDescriptor option" where
  "getLinkURL createURLDescriptor joinPaths h routeURL =
     (if \<not> isExternalHref h then
        (case createURLDescriptor (resolveHref joinPaths h routeURL) of
           Inl e \<Rightarrow> Inl e
         | Inr u \<Rightarrow> Inr (Some u))
      else Inr None)"

text \<open>
  A \<open>Route\<close> is one resolved level of the route tree: its \<open>type\<close>, the \<open>url\<close> it was
  matched at, its \<open>title\<close> and its \<open>content\<close> (absent while busy); a redirect carries its
  target.
\<close>

datatype RouteType = Switch | Page | Redirect | Busy | NotFound

record Route =
  type :: RouteType
  url :: URLDescriptor
  title :: "string option"
  content :: "string option"
  redirectTo :: "string option"

text \<open>
  The \<open>NaviContext\<close> read by the hooks. The navigation object is represented by its
  identity; the hooks guard against its absence, so it is optional.
\<close>

type_synonym Navigation = nat

record NaviContext =
  navigation :: "Navigation option"
  steadyRoute :: "Route option"
  busyRoute :: "Route option"

text \<open>JavaScript's \<open>a || b\<close> on two optional objects.\<close>

fun or_else :: "'a option \<Rightarrow> 'a option \<Rightarrow> 'a option" where
  "or_else (Some a) b = Some a"
| "or_else None b = b"

text \<open>
  \<open>useActive(href, { exact = true, loading = false })\<close>. The result is \<open>Inl\<close> when
  \<open>createURLDescriptor\<close> throws while the hook runs.
\<close>

definition useActive ::
  "(Href \<Rightarrow> error + URLDescriptor) \<Rightarrow> (string list \<Rightarrow> string) \<Rightarrow> NaviContext \<Rightarrow>
   Href \<Rightarrow> bool \<Rightarrow> bool \<Rightarrow> error + bool" where
  "useActive createURLDescriptor joinPaths context h exact loading =
     (let route = (if loading then or_else (busyRoute context) (steadyRoute context)
                   else or_else (steadyRoute context) (busyRoute context));
          routeURL = map_option url route
      in case getLinkURL createURLDescriptor joinPaths h routeURL of
           Inl e \<Rightarrow> Inl e
         | Inr linkURL \<Rightarrow>
             Inr (case linkURL of
                    None \<Rightarrow> False
                  | Some l \<Rightarrow>
                      (case routeURL of
                         None \<Rightarrow> False
                       | Some r \<Rightarrow>
                           if exact then pathname l = pathname r
                           else indexOf (modifyTrailingSlash (pathname r) Add) (pathname l) = 0)))"

text \<open>
  The part of a React mouse event the click handler reads, and \<open>preventDefault\<close>, which
  sets \<open>defaultPrevented\<close>.
\<close>

record MouseEvent =
  button :: int
  altKey :: bool
  ctrlKey :: bool
  metaKey :: bool
  shiftKey :: bool
  defaultPrevented :: bool

definition preventDefault :: "MouseEvent \<Rightarrow> MouseEvent" where
  "preventDefault event = event\<lparr>defaultPrevented := True\<rparr>"

text \<open>
  The calls the hooks make on their collaborators, in order: \<open>navigation.prefetch(url)\<close>,
  \<open>navigation.navigate(url, options)\<close> where the options are \<open>{ state }\<close> or \<open>undefined\<close>, and
  \<open>scrollToHash(hash, behavior)\<close>.
\<close>

datatype 's NavigateOptions = NavigateOptions (state: 's)

datatype ('s, 'b) Effect =
    Prefetch Navigation URLDescriptor
  | Navigate Navigation URLDescriptor "'s NavigateOptions option"
  | ScrollToHash string "'b option"

text \<open>
  The body of the prefetch effect of \<open>useLinkProps\<close>, run on mount and whenever
  \<open>navigation\<close>, \<open>prefetch\<close> or the link's href change. (The rejection handler attached to
  the returned promise only logs a warning.)
\<close>

definition prefetchEffect ::
  "bool \<Rightarrow> Navigation option \<Rightarrow> URLDescriptor option \<Rightarrow> ('s, 'b) Effect list" where
  "prefetchEffect prefetch nav linkURL =
     (case (nav, linkURL) of
        (Some n, Some l) \<Rightarrow> if prefetch \<and> pathname l \<noteq> [] then [Prefetch n l] else []
      | _ \<Rightarrow> [])"

text \<open>
  A function passed in by the caller. React compares the dependencies of a hook with
  \<open>Object.is\<close>, which on functions is identity of reference, so a function value comes
  with its reference.
\<close>

record EventHandler =
  reference :: nat
  call :: "MouseEvent \<Rightarrow> MouseEvent"

text \<open>
  The click handler built by \<open>useLinkProps\<close>. It returns the event as it leaves the
  handler and the calls made, or \<open>TypeError\<close> when \<open>navigation.navigate\<close> is reached with
  no navigation object. The caller's own \<open>onClick\<close> may call \<open>preventDefault\<close>, so it is a
  function on events. \<open>disabled\<close> is an optional boolean, truthy when it is \<open>true\<close>.
\<close>

definition handleClick ::
  "bool option \<Rightarrow> EventHandler option \<Rightarrow> 's option \<Rightarrow> 'b option \<Rightarrow>
   Navigation option \<Rightarrow> URLDescriptor option \<Rightarrow> URLDescriptor option \<Rightarrow>
   MouseEvent \<Rightarrow> error + (MouseEvent \<times> ('s, 'b) Effect list)" where
  "handleClick disabled onClick st hashScrollBehavior nav routeURL linkURL event =
     (if button event = 0 \<and>
         \<not> (altKey event \<or> ctrlKey event \<or> metaKey event \<or> shiftKey event) then
        if disabled = Some True then Inr (preventDefault event, [])
        else
          let event1 = (case onClick of Some f \<Rightarrow> call f event | None \<Rightarrow> event) in
          (case routeURL of
             None \<Rightarrow> Inr (event1, [])
           | Some r \<Rightarrow>
               (case linkURL of
                  None \<Rightarrow> Inr (event1, [])
                | Some l \<Rightarrow>
                    if \<not> defaultPrevented event1 then
                      let event2 = preventDefault event1;
                          isSamePathname =
                            (modifyTrailingSlash (pathname l) Remove =
                             modifyTrailingSlash (pathname r) Remove)
                      in (case nav of
                            None \<Rightarrow> Inl TypeError
                          | Some n \<Rightarrow>
                              Inr (event2,
                                   Navigate n l (map_option NavigateOptions st) #
                                   (if (isSamePathname \<or> pathname l = []) \<and>
                                       hash l = hash r \<and> hash l \<noteq> []
                                    then [ScrollToHash (hash r) hashScrollBehavior]
                                    else [])))
                    else Inr (event1, [])))
      else Inr (event, []))"

text \<open>
  A handler is the function \<open>handleClick\<close> of one render, closed over that render's
  \<open>disabled\<close>, \<open>onClick\<close>, \<open>state\<close>, \<open>hashScrollBehavior\<close>, \<open>navigation\<close>, \<open>routeURL\<close> and
  \<open>linkURL\<close>. Its dependency list is
  \<open>[disabled, onClick, linkURL && linkURL.href, routeURL && routeURL.href]\<close>.
\<close>

datatype ('s, 'b) Handler =
  Handler "bool option" "EventHandler option" "'s option" "'b option" "Navigation option"
    "URLDescriptor option" "URLDescriptor option"

fun invoke ::
  "('s, 'b) Handler \<Rightarrow> MouseEvent \<Rightarrow> error + (MouseEvent \<times> ('s, 'b) Effect list)" where
  "invoke (Handler disabled onClick st hashScrollBehavior nav routeURL linkURL) event =
     handleClick disabled onClick st hashScrollBehavior nav routeURL linkURL event"

fun dependencies ::
  "('s, 'b) Handler \<Rightarrow> bool option \<times> nat option \<times> string option \<times> string option" where
  "dependencies (Handler disabled onClick st hashScrollBehavior nav routeURL linkURL) =
     (disabled, map_option reference onClick, map_option href linkURL, map_option href routeURL)"

text \<open>
  What React keeps for the hook from one render to the next: the handler memoised by
  \<open>useCallback\<close>, and the dependency list \<open>[navigation, prefetch, linkURL && linkURL.href]\<close> of
  the prefetch effect. \<open>useCallback\<close> returns the handler of the earlier render unless a
  dependency has changed; \<open>useEffect\<close> runs its body on mount and when a dependency has
  changed.
\<close>

record ('s, 'b) Hooks =
  callback :: "('s, 'b) Handler"
  effectDependencies :: "Navigation option \<times> bool \<times> string option"

definition useCallback :: "('s, 'b) Handler \<Rightarrow> ('s, 'b) Hooks option \<Rightarrow> ('s, 'b) Handler" where
  "useCallback handler previous =
     (case previous of
        None \<Rightarrow> handler
      | Some hooks \<Rightarrow>
          if dependencies (callback hooks) = dependencies handler then callback hooks
          else handler)"

definition useEffect ::
  "('s, 'b) Effect list \<Rightarrow> Navigation option \<times> bool \<times> string option \<Rightarrow>
   ('s, 'b) Hooks option \<Rightarrow> ('s, 'b) Effect list" where
  "useEffect body deps previous =
     (case previous of
        None \<Rightarrow> body
      | Some hooks \<Rightarrow> if effectDependencies hooks = deps then [] else body)"

text \<open>
  \<open>useLinkProps\<close> returns the click handler and the href to render; the model also
  returns the calls of its prefetch effect in this render, and what React keeps for the
  next render. \<open>previous\<close> is what React kept from the render before, \<open>None\<close> on mount.
  \<open>hashScrollBehavior\<close> defaults to the value from the \<open>HashScrollContext\<close>.
\<close>

record ('s, 'b) LinkProps =
  onClick :: "MouseEvent \<Rightarrow> error + (MouseEvent \<times> ('s, 'b) Effect list)"
  linkHref :: Href
  effect :: "('s, 'b) Effect list"

definition useLinkProps ::
  "(Href \<Rightarrow> error + URLDescriptor) \<Rightarrow> (string list \<Rightarrow> string) \<Rightarrow> 'b option \<Rightarrow> NaviContext \<Rightarrow>
   bool option \<Rightarrow> 'b option \<Rightarrow> Href \<Rightarrow> bool \<Rightarrow> 's option \<Rightarrow> EventHandler option \<Rightarrow>
   ('s, 'b) Hooks option \<Rightarrow> error + (('s, 'b) LinkProps \<times> ('s, 'b) Hooks)" where
  "useLinkProps createURLDescriptor joinPaths hashScrollBehaviorFromContext context
     disabled hashScrollBehavior h prefetch st onClick' previous =
     (let nav = navigation context;
          hashScrollBehavior' =
            (case hashScrollBehavior of None \<Rightarrow> hashScrollBehaviorFromContext | Some b \<Rightarrow> Some b);
          route = or_else (steadyRoute context) (busyRoute context);
          routeURL = map_option url route
      in case getLinkURL createURLDescriptor joinPaths h routeURL of
           Inl e \<Rightarrow> Inl e
         | Inr linkURL0 \<Rightarrow>
             (case (if \<not> isExternalHref h
                    then map_sum id Some (createURLDescriptor (resolveHref joinPaths h routeURL))
                    else Inr linkURL0) of
                Inl e \<Rightarrow> Inl e
              | Inr linkURL \<Rightarrow>
                  (let handler = useCallback
                         (Handler disabled onClick' st hashScrollBehavior' nav routeURL linkURL)
                         previous;
                       deps = (nav, prefetch, map_option href linkURL)
                   in Inr (\<lparr> onClick = invoke handler,
                              linkHref = (case linkURL of
                                            Some l \<Rightarrow> HrefString (href l) | None \<Rightarrow> h),
                              effect = useEffect (prefetchEffect prefetch nav linkURL) deps
                                         previous \<rparr>,
                            \<lparr> callback = handler, effectDependencies = deps \<rparr>))))"

text \<open>
  Implementations of the two parameters for the worked examples: a string href is split
  into pathname, search and hash (the query is left unparsed), a descriptor is completed
  with empty fields; paths are joined with single slashes.
\<close>

definition exampleCreateURLDescriptor :: "Href \<Rightarrow> error + URLDescriptor" where
  "exampleCreateURLDescriptor h =
     (case h of
        HrefUndefined \<Rightarrow> Inl TypeError
      | HrefString s \<Rightarrow>
          (let beforeHash = takeWhile (\<lambda>c. c \<noteq> CHR ''#'') s;
               p = takeWhile (\<lambda>c. c \<noteq> CHR ''?'') beforeHash;
               q = dropWhile (\<lambda>c. c \<noteq> CHR ''?'') beforeHash;
               f = dropWhile (\<lambda>c. c \<noteq> CHR ''#'') s
           in Inr \<lparr> pathname = p, search = q, hash = f, query = [], href = p @ q @ f \<rparr>)
      | HrefDescriptor d \<Rightarrow>
          (let p = (case pathname_opt d of None \<Rightarrow> [] | Some x \<Rightarrow> x);
               q = (case search_opt d of None \<Rightarrow> [] | Some x \<Rightarrow> x);
               f = (case hash_opt d of None \<Rightarrow> [] | Some x \<Rightarrow> x)
           in Inr \<lparr> pathname = p, search = q, hash = f,
                    query = (case query_opt d of None \<Rightarrow> [] | Some x \<Rightarrow> x),
                    href = p @ q @ f \<rparr>))"

fun collapseSlashes :: "string \<Rightarrow> string" where
  "collapseSlashes (a # b # cs) =
     (if a = CHR ''/'' \<and> b = CHR ''/'' then collapseSlashes (b # cs)
      else a # collapseSlashes (b # cs))"
| "collapseSlashes cs = cs"

definition exampleJoinPaths :: "string list \<Rightarrow> string" where
  "exampleJoinPaths parts = collapseSlashes (concat (map (\<lambda>p. ''/'' @ p) parts))"

definition exampleURL :: "string \<Rightarrow> URLDescriptor" where
  "exampleURL p = \<lparr> pathname = p, search = [], hash = [], query = [], href = p \<rparr>"

definition exampleRoute :: "string \<Rightarrow> Route" where
  "exampleRoute p =
     \<lparr> type = Page, url = exampleURL p, title = None, content = None, redirectTo = None \<rparr>"

definition exampleContext :: "string \<Rightarrow> NaviContext" where
  "exampleContext p =
     \<lparr> navigation = Some 0, steadyRoute = Some (exampleRoute p), busyRoute = None \<rparr>"

definition plainClick :: MouseEvent where
  "plainClick = \<lparr> button = 0, altKey = False, ctrlKey = False, metaKey = False,
                   shiftKey = False, defaultPrevented = False \<rparr>"

text \<open>
  Clicking the element rendered with the props of \<open>useLinkProps\<close>: the click handler it
  returned is applied to the event (and nothing is clicked when the hook threw).
\<close>

definition clickLink ::
  "error + (('s, 'b) LinkProps \<times> ('s, 'b) Hooks) \<Rightarrow> MouseEvent \<Rightarrow>
   error + (MouseEvent \<times> ('s, 'b) Effect list)" where
  "clickLink rendered event =
     (case rendered of Inl e \<Rightarrow> Inl e | Inr (lp, hooks) \<Rightarrow> onClick lp event)"

text \<open>What React keeps after a render, for the next one.\<close>

definition kept ::
  "error + (('s, 'b) LinkProps \<times> ('s, 'b) Hooks) \<Rightarrow> ('s, 'b) Hooks option" where
  "kept rendered = (case rendered of Inl e \<Rightarrow> None | Inr (lp, hooks) \<Rightarrow> Some hooks)"

text \<open>
  What React keeps after the first render of a link to \<open>/about\<close> with the state \<open>7\<close>, seen
  from \<open>/\<close>.
\<close>

definition exampleKept :: "(nat, nat) Hooks option" where
  "exampleKept =
     kept (useLinkProps exampleCreateURLDescriptor exampleJoinPaths None (exampleContext ''/'')
             None None (HrefString ''/about'') True (Some 7) None None)"

section \<open>Browser navigation\<close>

text \<open>
  A \<open>RoutingState\<close> is the aggregate over the routes of one URL resolution:
  \<open>{ url, routes, lastRoute, isSteady, isBusy, error }\<close>.
\<close>

record RoutingState =
  url :: URLDescriptor
  routes :: "Route list"
  lastRoute :: Route
  isSteady :: bool
  isBusy :: bool
  error :: "string option"

text \<open>
  Of the \<open>history\<close> object, the collaborators read the current location. A \<open>Resolver\<close>
  instance is represented by its identity: \<open>new Resolver\<close> takes the next free one.
\<close>

record History =
  location :: URLDescriptor

type_synonym ResolverRef = nat

definition new_Resolver :: "nat \<Rightarrow> ResolverRef \<times> nat" where
  "new_Resolver allocated = (allocated, Suc allocated)"

text \<open>
  The \<open>Router\<close> class is not among the source files. A router object is represented by
  the arguments of its constructor call
  \<open>new Router(resolver, { rootContext, rootJunction, rootPath })\<close>; an argument that is
  \<open>undefined\<close> at the call is \<open>None\<close>. The types of contexts and junctions are parameters.
\<close>

record ('c, 'j) Router =
  resolver :: ResolverRef
  rootContext :: "'c option"
  rootJunction :: "'j option"
  rootPath :: "string option"

text \<open>
  Modelled from the spec: the \<open>HistoryRoutingObservable\<close> (\<open>createHistoryRoutingObservable\<close>,
  \<open>getValue\<close>, \<open>setRouter\<close>, \<open>getSteadyState\<close>) is not among the source files. Following
  the spec, it keeps the latest known state for replay, numbers the resolution requests
  (a generation counter), starts a new request when the location changes to a new URL
  and whenever the router is replaced, passes on what the router reports for the current
  request only, and completes the deferred value of \<open>getSteadyState\<close> once the state of
  the current request is steady.
\<close>

record ('c, 'j) HistoryRoutingObservable =
  router :: "('c, 'j) Router"
  history :: History
  request :: nat
  lastValue :: RoutingState
  waitingForSteadyState :: bool

text \<open>
  What the observable hands out: \<open>Next q s\<close> is the state \<open>s\<close> pushed to the subscribers,
  \<open>SteadyState q s\<close> the completion of the deferred value of \<open>getSteadyState\<close> with \<open>s\<close>;
  \<open>q\<close> is the number of the request whose resolution produced \<open>s\<close>.
\<close>

datatype Output = Next nat RoutingState | SteadyState nat RoutingState



definition busyState :: "URLDescriptor \<Rightarrow> RoutingState" where
  "busyState u =
     (let r = \<lparr> type = Busy, Route.url = u, title = None, content = None, redirectTo = None \<rparr>
      in \<lparr> RoutingState.url = u, routes = [r], lastRoute = r,
            isSteady = False, isBusy = True, error = None \<rparr>)"

definition createHistoryRoutingObservable ::
  "History \<Rightarrow> ('c, 'j) Router \<Rightarrow> ('c, 'j) HistoryRoutingObservable" where
  "createHistoryRoutingObservable h r =
     \<lparr> router = r, history = h, request = 0, lastValue = busyState (location h),
       waitingForSteadyState = False \<rparr>"

definition getValue :: "('c, 'j) HistoryRoutingObservable \<Rightarrow> RoutingState" where
  "getValue obs = lastValue obs"

text \<open>A new resolution request for the current location: the state starts over as busy.\<close>

definition refresh ::
  "('c, 'j) HistoryRoutingObservable \<Rightarrow> ('c, 'j) HistoryRoutingObservable \<times> Output list" where
  "refresh obs =
     (let q = Suc (request obs); s = busyState (location (history obs))
      in (obs\<lparr> request := q, lastValue := s \<rparr>, [Next q s]))"

definition areURLDescriptorsEqual :: "URLDescriptor \<Rightarrow> URLDescriptor \<Rightarrow> bool" where
  "areURLDescriptorsEqual a b =
     (pathname a = pathname b \<and> search a = search b \<and> hash a = hash b)"

definition locationChanged ::
  "URLDescriptor \<Rightarrow> ('c, 'j) HistoryRoutingObservable \<Rightarrow>
   ('c, 'j) HistoryRoutingObservable \<times> Output list" where
  "locationChanged u obs =
     (if areURLDescriptorsEqual u (location (history obs)) then (obs, [])
      else refresh (obs\<lparr> history := \<lparr> location = u \<rparr> \<rparr>))"

definition setRouter ::
  "('c, 'j) Router \<Rightarrow> ('c, 'j) HistoryRoutingObservable \<Rightarrow>
   ('c, 'j) HistoryRoutingObservable \<times> Output list" where
  "setRouter r obs = refresh (obs\<lparr> router := r \<rparr>)"

text \<open>
  The router reports, for request \<open>q\<close>, the routes resolved so far (the last one apart)
  and whether the resolution has settled. A report for a request that has been
  superseded is disregarded.
\<close>

definition routerReports ::
  "nat \<Rightarrow> Route list \<Rightarrow> Route \<Rightarrow> bool \<Rightarrow> string option \<Rightarrow> ('c, 'j) HistoryRoutingObservable \<Rightarrow>
   ('c, 'j) HistoryRoutingObservable \<times> Output list" where
  "routerReports q rs r steady err obs =
     (if q = request obs then
        let s = \<lparr> RoutingState.url = location (history obs), routes = rs @ [r], lastRoute = r,
                  isSteady = steady, isBusy = \<not> steady, error = err \<rparr>
        in if steady \<and> waitingForSteadyState obs
           then (obs\<lparr> lastValue := s, waitingForSteadyState := False \<rparr>,
                 [Next q s, SteadyState q s])
           else (obs\<lparr> lastValue := s \<rparr>, [Next q s])
      else (obs, []))"

definition observableGetSteadyState ::
  "('c, 'j) HistoryRoutingObservable \<Rightarrow> ('c, 'j) HistoryRoutingObservable \<times> Output list" where
  "observableGetSteadyState obs =
     (if isSteady (lastValue obs) then (obs, [SteadyState (request obs) (lastValue obs)])
      else (obs\<lparr> waitingForSteadyState := True \<rparr>, []))"

text \<open>The options of \<open>createBrowserNavigation\<close>; only \<open>rootJunction\<close> is required.\<close>

datatype SetDocumentTitleOption = TitleFlag bool | TitleFunction "string option \<Rightarrow> string"

record ('c, 'j) BrowserNavigationOptions =
  history :: "History option"
  setDocumentTitle :: "SetDocumentTitleOption option"
  disableScrollHandling :: "bool option"
  initialRootContext :: "'c option"
  rootJunction :: 'j
  rootPath :: "string option"

text \<open>
  The fields of the class \<open>BrowserNavigation\<close>. A field that no statement has assigned is
  \<open>undefined\<close>, that is \<open>None\<close>.
\<close>

record ('c, 'j) BrowserNavigation =
  router :: "('c, 'j) Router"
  history :: History
  setDocumentTitle :: "(string option \<Rightarrow> string) option"
  disableScrollHandling :: bool
  rootJunction :: "'j option"
  rootPath :: "string option"
  resolver :: ResolverRef
  receivedState :: "RoutingState option"
  renderedState :: "RoutingState option"
  historyRoutingObservable :: "('c, 'j) HistoryRoutingObservable"

text \<open>\<open>handleChange\<close>, the observer the constructor subscribes: it keeps the state received.\<close>

definition handleChange ::
  "RoutingState \<Rightarrow> ('c, 'j) BrowserNavigation \<Rightarrow> ('c, 'j) BrowserNavigation" where
  "handleChange s nav = nav\<lparr> receivedState := Some s \<rparr>"

text \<open>Every state the observable pushes reaches \<open>handleChange\<close>, in order.\<close>

fun deliver :: "Output list \<Rightarrow> ('c, 'j) BrowserNavigation \<Rightarrow> ('c, 'j) BrowserNavigation" where
  "deliver [] nav = nav"
| "deliver (Next q s # outs) nav = deliver outs (handleChange s nav)"
| "deliver (SteadyState q s # outs) nav = deliver outs nav"

text \<open>
  The constructor. \<open>createBrowserHistory\<close> stands for the history object that the
  \<open>history\<close> package would create, \<open>allocated\<close> for the number of resolvers created so far.
  Subscribing \<open>handleChange\<close> replays the latest known state to it. The fields
  \<open>rootJunction\<close> and \<open>rootPath\<close> are declared by the class, and no statement of the
  constructor assigns them.
\<close>

definition defaultDocumentTitle :: "string option \<Rightarrow> string" where
  "defaultDocumentTitle x = (case x of None \<Rightarrow> ''Untitled Page'' | Some t \<Rightarrow> if t = [] then ''Untitled Page'' else t)"

definition BrowserNavigation_constructor ::
  "History \<Rightarrow> nat \<Rightarrow> ('c, 'j) BrowserNavigationOptions \<Rightarrow> ('c, 'j) BrowserNavigation \<times> nat" where
  "BrowserNavigation_constructor createBrowserHistory allocated options =
     (let history' = (case BrowserNavigationOptions.history options of
                        Some h \<Rightarrow> h | None \<Rightarrow> createBrowserHistory);
          (resolver', allocated') = new_Resolver allocated;
          router' = \<lparr> Router.resolver = resolver',
                      rootContext = initialRootContext options,
                      Router.rootJunction = Some (BrowserNavigationOptions.rootJunction options),
                      Router.rootPath = BrowserNavigationOptions.rootPath options \<rparr>;
          setDocumentTitle' =
            (case BrowserNavigationOptions.setDocumentTitle options of
               Some (TitleFlag False) \<Rightarrow> None
             | Some (TitleFunction f) \<Rightarrow> Some f
             | _ \<Rightarrow> Some defaultDocumentTitle);
          disableScrollHandling' =
            (case BrowserNavigationOptions.disableScrollHandling options of
               Some b \<Rightarrow> b | None \<Rightarrow> False);
          obs = createHistoryRoutingObservable history' router'
      in (\<lparr> BrowserNavigation.router = router',
            BrowserNavigation.history = history',
            BrowserNavigation.setDocumentTitle = setDocumentTitle',
            BrowserNavigation.disableScrollHandling = disableScrollHandling',
            BrowserNavigation.rootJunction = None,
            BrowserNavigation.rootPath = None,
            BrowserNavigation.resolver = resolver',
            receivedState = Some (getValue obs),
            renderedState = Some (getValue obs),
            historyRoutingObservable = obs \<rparr>,
          allocated'))"

definition createBrowserNavigation ::
  "History \<Rightarrow> nat \<Rightarrow> ('c, 'j) BrowserNavigationOptions \<Rightarrow> ('c, 'j) BrowserNavigation \<times> nat" where
  "createBrowserNavigation createBrowserHistory allocated options =
     BrowserNavigation_constructor createBrowserHistory allocated options"

text \<open>
  \<open>setContext\<close>: a new router on the resolver of this navigation object, handed to the
  observable. The second component is what the observable pushes in response.
\<close>

definition setContext ::
  "'c \<Rightarrow> ('c, 'j) BrowserNavigation \<Rightarrow> ('c, 'j) BrowserNavigation \<times> Output list" where
  "setContext context nav =
     (let router' = \<lparr> Router.resolver = BrowserNavigation.resolver nav,
                      rootContext = Some context,
                      Router.rootJunction = BrowserNavigation.rootJunction nav,
                      Router.rootPath = BrowserNavigation.rootPath nav \<rparr>;
          (obs, outs) = setRouter router' (historyRoutingObservable nav)
      in (deliver outs (nav\<lparr> BrowserNavigation.router := router',
                              historyRoutingObservable := obs \<rparr>),
          outs))"

text \<open>
  A \<open>NavigationState\<close> is a routing state together with the \<open>history\<close> and \<open>router\<close>
  handles (and the \<open>onRendered\<close> callback, a bound method that the model leaves out).
\<close>

record ('c, 'j) NavigationState =
  history :: History
  router :: "('c, 'j) Router"
  routingState :: RoutingState

definition getSnapshot :: "('c, 'j) BrowserNavigation \<Rightarrow> ('c, 'j) NavigationState" where
  "getSnapshot nav =
     \<lparr> NavigationState.history = BrowserNavigation.history nav,
       NavigationState.router = BrowserNavigation.router nav,
       routingState = getValue (historyRoutingObservable nav) \<rparr>"

text \<open>
  \<open>getSteadyState\<close> asks the observable for its steady state and attaches a \<open>then\<close>
  callback to the promise it gets; the second component is what the observable completes
  at once, if anything. The callback, \<open>onSteadyState\<close>, does not run during the call: it
  runs once the promise has settled and the code that is running has returned, and reads
  \<open>this.history\<close> and \<open>this.router\<close> then.
\<close>

definition getSteadyState ::
  "('c, 'j) BrowserNavigation \<Rightarrow> ('c, 'j) BrowserNavigation \<times> Output list" where
  "getSteadyState nav =
     (let (obs, outs) = observableGetSteadyState (historyRoutingObservable nav)
      in (nav\<lparr> historyRoutingObservable := obs \<rparr>, outs))"


text \<open>
  What can happen to a navigation object, one event at a time: the history reports a
  new location, the router reports on the resolution of a request, the application calls
  \<open>setContext\<close> or \<open>getSteadyState\<close>. The history object is shared with the observable,
  so a new location shows in both. \<open>step\<close> returns what the observable hands out in
  response; \<open>run\<close> does so for a sequence of events.
\<close>

datatype 'c Event =
    LocationChanged URLDescriptor
  | RouterReports nat "Route list" Route bool "string option"
  | SetContext 'c
  | GetSteadyState

definition observe ::
  "('c, 'j) HistoryRoutingObservable \<times> Output list \<Rightarrow> ('c, 'j) BrowserNavigation \<Rightarrow>
   ('c, 'j) BrowserNavigation \<times> Output list" where
  "observe r nav =
     (deliver (snd r) (nav\<lparr> BrowserNavigation.history := HistoryRoutingObservable.history (fst r),
                            historyRoutingObservable := fst r \<rparr>),
      snd r)"

fun step ::
  "('c, 'j) BrowserNavigation \<Rightarrow> 'c Event \<Rightarrow> ('c, 'j) BrowserNavigation \<times> Output list" where
  "step nav (LocationChanged u) = observe (locationChanged u (historyRoutingObservable nav)) nav"
| "step nav (RouterReports q rs r steady err) =
     observe (routerReports q rs r steady err (historyRoutingObservable nav)) nav"
| "step nav (SetContext c) = setContext c nav"
| "step nav GetSteadyState = getSteadyState nav"

fun run ::
  "('c, 'j) BrowserNavigation \<Rightarrow> 'c Event list \<Rightarrow> ('c, 'j) BrowserNavigation \<times> Output list" where
  "run nav [] = (nav, [])"
| "run nav (e # es) =
     (let (nav1, outs1) = step nav e; (nav2, outs2) = run nav1 es in (nav2, outs1 @ outs2))"











definition exampleOptions :: "(nat, string) BrowserNavigationOptions" where
  "exampleOptions =
     \<lparr> BrowserNavigationOptions.history = None,
       BrowserNavigationOptions.setDocumentTitle = None,
       BrowserNavigationOptions.disableScrollHandling = None,
       initialRootContext = Some 1,
       BrowserNavigationOptions.rootJunction = ''root'',
       BrowserNavigationOptions.rootPath = Some ''/app'' \<rparr>"

definition exampleNavigation :: "(nat, string) BrowserNavigation" where
  "exampleNavigation =
     fst (createBrowserNavigation \<lparr> location = exampleURL ''/'' \<rparr> 0 exampleOptions)"










section \<open>Resolver\<close>

text \<open>
  Modelled from the spec: the \<open>Resolver\<close> class is not among the source files (the
  navigation object only constructs one and passes it to its routers). Following the
  spec, the resolver owns one table, from resolution keys to the handles of the requests
  made for them; an entry goes from pending to fulfilled or rejected and then stays.
  \<open>resolve\<close> for a key that has an entry returns the handle of that entry and does not
  invoke the loader; for a key without an entry it invokes the loader, which is recorded
  in \<open>loaderCalls\<close>, and enters a new pending handle. The caller's router takes no part
  in the lookup. Handles index the list of request states.
\<close>

datatype 'v Status = Pending | Fulfilled 'v | Rejected string

record ('k, 'v) Resolver =
  cache :: "'k \<rightharpoonup> nat"
  handles :: "'v Status list"
  loaderCalls :: "'k list"

definition newResolver :: "('k, 'v) Resolver" where
  "newResolver = \<lparr> cache = Map.empty, handles = [], loaderCalls = [] \<rparr>"

definition resolve :: "'r \<Rightarrow> 'k \<Rightarrow> ('k, 'v) Resolver \<Rightarrow> nat \<times> ('k, 'v) Resolver" where
  "resolve caller k res =
     (case cache res k of
        Some h \<Rightarrow> (h, res)
      | None \<Rightarrow>
          (let h = length (handles res)
           in (h, res\<lparr> cache := (cache res)(k \<mapsto> h),
                      handles := handles res @ [Pending],
                      loaderCalls := loaderCalls res @ [k] \<rparr>)))"

text \<open>The loader's work for a key settles: with a value, or with an error.\<close>

definition settle :: "'k \<Rightarrow> string + 'v \<Rightarrow> ('k, 'v) Resolver \<Rightarrow> ('k, 'v) Resolver" where
  "settle k outcome res =
     (case cache res k of
        None \<Rightarrow> res
      | Some h \<Rightarrow>
          if h < length (handles res) \<and> handles res ! h = Pending
          then res\<lparr> handles := (handles res)
                       [h := (case outcome of Inl e \<Rightarrow> Rejected e | Inr v \<Rightarrow> Fulfilled v)] \<rparr>
          else res)"

text \<open>What a caller holding a handle sees.\<close>

definition await :: "nat \<Rightarrow> ('k, 'v) Resolver \<Rightarrow> 'v Status option" where
  "await h res = (if h < length (handles res) then Some (handles res ! h) else None)"

text \<open>
  Calls and settlements interleave in any order; \<open>play\<close> runs a sequence of them and
  collects, for each call, the caller, the key and the handle returned.
\<close>

datatype ('r, 'k, 'v) ResolverEvent = Resolve 'r 'k | Settle 'k "string + 'v"

fun resolverStep ::
  "('k, 'v) Resolver \<Rightarrow> ('r, 'k, 'v) ResolverEvent \<Rightarrow> ('k, 'v) Resolver \<times> ('r \<times> 'k \<times> nat) list" where
  "resolverStep res (Resolve caller k) =
     (snd (resolve caller k res), [(caller, k, fst (resolve caller k res))])"
| "resolverStep res (Settle k outcome) = (settle k outcome res, [])"

fun play ::
  "('k, 'v) Resolver \<Rightarrow> ('r, 'k, 'v) ResolverEvent list \<Rightarrow>
   ('k, 'v) Resolver \<times> ('r \<times> 'k \<times> nat) list" where
  "play res [] = (res, [])"
| "play res (e # es) =
     (fst (play (fst (resolverStep res e)) es),
      snd (resolverStep res e) @ snd (play (fst (resolverStep res e)) es))"

fun resolvesKey :: "'k \<Rightarrow> ('r, 'k, 'v) ResolverEvent \<Rightarrow> bool" where
  "resolvesKey k (Resolve caller k') = (k' = k)"
| "resolvesKey k (Settle k' outcome) = False"

text \<open>The loader has been invoked once for each key in the table, and for no other.\<close>

definition invokedOnce :: "('k, 'v) Resolver \<Rightarrow> bool" where
  "invokedOnce res =
     (\<forall>k. count_list (loaderCalls res) k = (if cache res k = None then 0 else 1))"

text \<open>
  Two routers, \<open>1\<close> and \<open>2\<close>, share a resolver and ask for \<open>/a/b\<close> without content before
  the first request has settled; then it settles, and a third call follows.
\<close>

definition exampleCalls :: "(nat, string \<times> bool, string) ResolverEvent list" where
  "exampleCalls =
     [Resolve 1 (''/a/b'', False), Resolve 2 (''/a/b'', False),
      Settle (''/a/b'', False) (Inr ''page''), Resolve 2 (''/a/b'', False)]"

section \<open>Route tree and router\<close>

text \<open>
  The environment handed to loader functions, as the interface \<open>RouterEnv\<close> declares it:
  seven read-only fields (\<open>context\<close> and \<open>method\<close> are written with a prime). The context is
  that of the router, which may be \<open>undefined\<close>. An \<open>HTTPMethod\<close> is one of a few strings,
  \<open>Params\<close> a map from names to strings.
\<close>

type_synonym HTTPMethod = string

type_synonym Params = "(string \<times> string) list"

record ('c, 'j) RouterEnv =
  context' :: "'c option"
  method' :: HTTPMethod
  params :: Params
  pathname :: string
  query :: Params
  router :: "('c, 'j) Router"
  unmatchedPathnamePart :: string

text \<open>
  Modelled from the spec: the route tree (\<open>createSwitch\<close>, \<open>createPage\<close>,
  \<open>createRedirect\<close>) and the tree walk of \<open>Router.resolve\<close> are not among the source
  files. Following the spec, a switch maps path keys to child nodes, in insertion
  order; a page has a title and a loader for its content, which may fail with a message;
  a redirect has a loader for its target. Loaders take the environment.
\<close>

datatype 'e RouteTreeNode =
    SwitchNode "(string \<times> 'e RouteTreeNode) list"
  | PageNode "string option" "'e \<Rightarrow> string + string"
  | RedirectNode "'e \<Rightarrow> string"

text \<open>
  A key matches the unmatched part of the pathname when it is a prefix of it that ends
  at a segment boundary; the index key \<open>/\<close> matches when nothing is left to match. Among
  the matching keys of a switch the longest wins, and the first of equal length.
\<close>

definition nothingLeft :: "string \<Rightarrow> bool" where
  "nothingLeft rest = (rest = [] \<or> rest = ''/'')"

definition matchesKey :: "string \<Rightarrow> string \<Rightarrow> bool" where
  "matchesKey key rest =
     (if key = ''/'' then nothingLeft rest
      else prefix key rest \<and> (length rest = length key \<or> rest ! length key = CHR ''/''))"

fun matchChild :: "(string \<times> 'n) list \<Rightarrow> string \<Rightarrow> (string \<times> 'n) option" where
  "matchChild [] rest = None"
| "matchChild ((key, child) # paths) rest =
     (case matchChild paths rest of
        None \<Rightarrow> if matchesKey key rest then Some (key, child) else None
      | Some (key', child') \<Rightarrow>
          if matchesKey key rest \<and> length key' \<le> length key then Some (key, child)
          else Some (key', child'))"

definition extendMatched :: "string \<Rightarrow> string \<Rightarrow> string" where
  "extendMatched matched key = (if key = ''/'' then matched else matched @ key)"

definition remainder :: "string \<Rightarrow> string \<Rightarrow> string" where
  "remainder key rest = (if key = ''/'' then [] else drop (length key) rest)"

definition urlOfPathname :: "string \<Rightarrow> URLDescriptor" where
  "urlOfPathname p =
     \<lparr> URLDescriptor.pathname = p, search = [], hash = [], URLDescriptor.query = [], href = p \<rparr>"

definition routeOf :: "RouteType \<Rightarrow> string \<Rightarrow> Route" where
  "routeOf t p =
     \<lparr> type = t, Route.url = urlOfPathname p, title = None, content = None, redirectTo = None \<rparr>"

text \<open>
  The walk below a switch. It returns the routes of the matched levels, outermost
  first, and the loader error, if a content loader failed. When no child matches, the
  last route is of type \<open>NotFound\<close>; a page with something left to match has no children
  to match it, which is the same case. A redirect yields its target and is not followed.
  With the option \<open>withContent\<close> unset, content loaders are not run. Resolving a URL for
  navigation is a \<open>GET\<close>.
\<close>

function walk ::
  "('c, 'j) Router \<Rightarrow> bool \<Rightarrow> Params \<Rightarrow> Params \<Rightarrow> string \<Rightarrow>
   (string \<times> ('c, 'j) RouterEnv RouteTreeNode) list \<Rightarrow> string \<Rightarrow> Route list \<times> string option" where
  "walk r withContent ps q matched paths rest =
     (case matchChild paths rest of
        None \<Rightarrow> ([routeOf NotFound (matched @ rest)], None)
      | Some (key, child) \<Rightarrow>
          (let matched' = extendMatched matched key;
               rest' = remainder key rest;
               env = \<lparr> context' = rootContext r, method' = ''GET'', params = ps,
                       RouterEnv.pathname = matched', RouterEnv.query = q,
                       RouterEnv.router = r, unmatchedPathnamePart = rest' \<rparr>
           in case child of
                SwitchNode children \<Rightarrow>
                  (let (routes, err) = walk r withContent ps q matched' children rest'
                   in (routeOf Switch matched' # routes, err))
              | PageNode t getContent \<Rightarrow>
                  if \<not> nothingLeft rest' then ([routeOf NotFound (matched' @ rest')], None)
                  else if \<not> withContent then ([(routeOf Page matched')\<lparr> title := t \<rparr>], None)
                  else
                    (case getContent env of
                       Inl e \<Rightarrow> ([(routeOf Page matched')\<lparr> title := t \<rparr>], Some e)
                     | Inr c \<Rightarrow> ([(routeOf Page matched')\<lparr> title := t, content := Some c \<rparr>], None))
              | RedirectNode to \<Rightarrow>
                  ([(routeOf Redirect matched')\<lparr> redirectTo := Some (to env) \<rparr>], None)))"
  by pat_completeness auto
termination
proof (relation "measure (\<lambda>(r, w, ps, q, matched, paths, rest).
                            size_list (size_prod (\<lambda>_. 0) size) paths)")
  show "wf (measure (\<lambda>(r :: ('c, 'j) Router, w :: bool, ps :: Params, q :: Params, matched :: string,
                        paths :: (string \<times> ('c, 'j) RouterEnv RouteTreeNode) list, rest :: string).
                            size_list (size_prod (\<lambda>_. 0) size) paths))"
    by simp
next
  fix r :: "('c, 'j) Router" and w :: bool and ps q :: Params and matched rest :: string
    and paths :: "(string \<times> ('c, 'j) RouterEnv RouteTreeNode) list"
    and x2 key child matched' rest' env children
  assume "matchChild paths rest = Some x2" and "(key, child) = x2"
    and "child = SwitchNode children"
  then have found: "matchChild paths rest = Some (key, SwitchNode children)"
    by simp
  have "(k, n) \<in> set xs" if "matchChild xs rest = Some (k, n)"
    for xs :: "(string \<times> ('c, 'j) RouterEnv RouteTreeNode) list" and k n
    using that by (induction xs) (auto split: option.splits if_splits)
  from this [OF found] have "(key, SwitchNode children) \<in> set paths" .
  moreover have "size n < size_list (size_prod (\<lambda>_. 0) size) xs" if "(k, n) \<in> set xs"
    for xs :: "(string \<times> ('c, 'j) RouterEnv RouteTreeNode) list" and k n
    using that by (induction xs) auto
  ultimately have "size (SwitchNode children) < size_list (size_prod (\<lambda>_. 0) size) paths"
    by blast
  then show "((r, w, ps, q, matched', children, rest'), (r, w, ps, q, matched, paths, rest))
        \<in> measure (\<lambda>(r, w, ps, q, matched, paths, rest).
                       size_list (size_prod (\<lambda>_. 0) size) paths)"
    by simp
qed

declare walk.simps [simp del]

text \<open>
  \<open>Router.resolve(href, { withContent })\<close>: an invalid URL fails before the walk begins;
  otherwise the result is a routing state, whatever the walk finds. The tree is that of
  the router's root junction.
\<close>

definition Router_resolve ::
  "(Href \<Rightarrow> error + URLDescriptor) \<Rightarrow> (string \<times> ('c, 'j) RouterEnv RouteTreeNode) list \<Rightarrow>
   ('c, 'j) Router \<Rightarrow> string \<Rightarrow> bool \<Rightarrow> error + RoutingState" where
  "Router_resolve createURLDescriptor root r h withContent =
     (case createURLDescriptor (HrefString h) of
        Inl e \<Rightarrow> Inl e
      | Inr u \<Rightarrow>
          (let (rs, err) = walk r withContent [] (URLDescriptor.query u) [] root
                             (URLDescriptor.pathname u)
           in Inr \<lparr> RoutingState.url = u, routes = rs, lastRoute = last rs,
                    isSteady = True, isBusy = False, error = err \<rparr>))"

text \<open>
  There is no route for a pathname when the walk comes to a switch none of whose keys
  matches what is left (in particular, it has no index route when nothing is left), or
  to a page with something left.
\<close>

inductive noRoute :: "(string \<times> 'e RouteTreeNode) list \<Rightarrow> string \<Rightarrow> bool" where
  noChild: "matchChild paths rest = None \<Longrightarrow> noRoute paths rest"
| below: "matchChild paths rest = Some (key, SwitchNode children) \<Longrightarrow>
          noRoute children (remainder key rest) \<Longrightarrow> noRoute paths rest"
| beyond: "matchChild paths rest = Some (key, PageNode t getContent) \<Longrightarrow>
           \<not> nothingLeft (remainder key rest) \<Longrightarrow> noRoute paths rest"

code_pred noRoute .

text \<open>The tree \<open>{ '/posts': Switch { '/hello': Page } }\<close> of the spec, and a router for it.\<close>

definition postsTree :: "(string \<times> (nat, string) RouterEnv RouteTreeNode) list" where
  "postsTree =
     [(''/posts'', SwitchNode [(''/hello'', PageNode (Some ''Hello'') (\<lambda>env. Inr ''hello, world''))])]"

definition exampleRouter :: "(nat, string) Router" where
  "exampleRouter =
     \<lparr> Router.resolver = 0, rootContext = Some 1, Router.rootJunction = Some ''root'',
       Router.rootPath = None \<rparr>"

section \<open>The blog's index pages\<close>


record 'r BlogIndexPage =
  pageNumber :: nat
  pageCount :: nat
  posts :: "(string \<times> 'r) list"








section \<open>The blog's layout\<close>














section \<open>Properties of the string helpers\<close>

lemma indexOf_from_range: "indexOf_from s t i = - 1 \<or> int i \<le> indexOf_from s t i"
  by (induction s arbitrary: i) (auto, force)

lemma indexOf_from_none: "(indexOf_from s t i = - 1) = (\<not> sublist t s)"
  by (induction s arbitrary: i) (auto simp: sublist_Cons_right)

lemma indexOf_from_start: "(indexOf_from s t i = int i) = prefix t s"
proof (cases s)
  case Nil
  then show ?thesis by auto
next
  case (Cons c cs)
  show ?thesis
  proof (cases "prefix t s")
    case True
    then show ?thesis using Cons by simp
  next
    case False
    have "indexOf_from cs t (Suc i) \<noteq> int i"
      using indexOf_from_range [of cs t "Suc i"] by auto
    then show ?thesis using False Cons by simp
  qed
qed

text \<open>\<open>s.indexOf(t) !== -1\<close> says that \<open>t\<close> occurs in \<open>s\<close>; \<open>s.indexOf(t) === 0\<close> that \<open>s\<close>
  starts with \<open>t\<close>.\<close>

lemma indexOf_contains: "(indexOf s t \<noteq> - 1) = sublist t s"
  by (simp add: indexOf_def indexOf_from_none)

lemma indexOf_startsWith: "(indexOf s t = 0) = prefix t s"
  using indexOf_from_start [of s t 0] by (simp add: indexOf_def)

lemma isExternalHref_iff:
  "isExternalHref h =
     (h = HrefUndefined \<or>
      (\<exists>s. h = HrefString s \<and> (s = [] \<or> sublist ''://'' s \<or> prefix ''mailto:'' s)))"
  by (cases h) (simp_all add: indexOf_contains indexOf_startsWith)

lemma remove_once:
  assumes "\<not> suffix ''//'' p"
  shows "modifyTrailingSlash (modifyTrailingSlash p Remove) Remove = modifyTrailingSlash p Remove"
proof (cases "hasTrailingSlash p \<and> length p > 1")
  case False
  then show ?thesis by (auto simp: modifyTrailingSlash_def)
next
  case True
  then obtain q where p: "p = q @ ''/''" and q: "q \<noteq> []"
    by (cases p rule: rev_cases) (auto simp: hasTrailingSlash_def)
  from assms p have "last q \<noteq> CHR ''/''"
    using q by (cases q rule: rev_cases) (auto simp: suffix_def)
  then have "\<not> hasTrailingSlash q" by (simp add: hasTrailingSlash_def)
  then show ?thesis using p q True by (simp add: modifyTrailingSlash_def)
qed

text \<open>
  Claim C7, as stated, fails for \<open>remove\<close>: one call takes a single slash off \<open>/a//\<close>, a
  second call takes off another one.
\<close>

theorem modifyTrailingSlash_remove_counterexample:
  "modifyTrailingSlash ''/a//'' Remove = ''/a/'' \<and>
   modifyTrailingSlash (modifyTrailingSlash ''/a//'' Remove) Remove = ''/a'' \<and>
   modifyTrailingSlash (modifyTrailingSlash ''/a//'' Remove) Remove \<noteq>
     modifyTrailingSlash ''/a//'' Remove"
  by (simp add: modifyTrailingSlash_def hasTrailingSlash_def)

text \<open>
  Claim C7, amended: for every pathname \<open>p\<close>, adding a trailing slash twice is the same
  as adding it once; and for every pathname \<open>p\<close> that does not end in two slashes,
  removing the trailing slash twice is the same as removing it once.
\<close>

theorem modifyTrailingSlash_idempotent:
  "modifyTrailingSlash (modifyTrailingSlash p Add) Add = modifyTrailingSlash p Add \<and>
   (\<not> suffix ''//'' p \<longrightarrow>
      modifyTrailingSlash (modifyTrailingSlash p Remove) Remove = modifyTrailingSlash p Remove)"
proof
  show "modifyTrailingSlash (modifyTrailingSlash p Add) Add = modifyTrailingSlash p Add"
    by (simp add: modifyTrailingSlash_def hasTrailingSlash_def)
  show "\<not> suffix ''//'' p \<longrightarrow>
      modifyTrailingSlash (modifyTrailingSlash p Remove) Remove = modifyTrailingSlash p Remove"
    using remove_once by blast
qed

theorem modifyTrailingSlash_idempotent_witness:
  "\<not> suffix ''//'' ''/posts/'' \<and>
   modifyTrailingSlash ''/posts/'' Remove = ''/posts'' \<and>
   modifyTrailingSlash (modifyTrailingSlash ''/posts/'' Remove) Remove = ''/posts'' \<and>
   modifyTrailingSlash (modifyTrailingSlash ''/posts'' Add) Add = ''/posts/''"
proof -
  have h: "\<not> suffix ''//'' ''/posts/''"
    by (simp add: suffix_def)
  have r: "modifyTrailingSlash ''/posts/'' Remove = ''/posts''"
    by (simp add: modifyTrailingSlash_def hasTrailingSlash_def)
  have a: "modifyTrailingSlash ''/posts'' Add = ''/posts/''"
    by (simp add: modifyTrailingSlash_def hasTrailingSlash_def)
  show ?thesis
    using h r a modifyTrailingSlash_idempotent [of "''/posts/''"]
      modifyTrailingSlash_idempotent [of "''/posts''"] by simp
qed

section \<open>Properties of the link hooks\<close>

lemma getLinkURL_external: "isExternalHref h \<Longrightarrow> getLinkURL c j h routeURL = Inr None"
  by (simp add: getLinkURL_def)


lemma handleClick_no_link:
  "\<exists>event'. handleClick disabled oc st hsb nav routeURL None event = Inr (event', [])"
  by (simp add: handleClick_def Let_def split: option.splits)

text \<open>
  A memoised handler that is returned again has the dependencies of the present render;
  when the present render has no link URL, neither has the handler.
\<close>

lemma useCallback_no_link:
  "\<exists>event'. invoke (useCallback (Handler disabled oc st hsb nav routeURL None) previous) event
             = Inr (event', [])"
proof (cases previous)
  case None
  then show ?thesis by (simp add: useCallback_def handleClick_no_link)
next
  case (Some hooks)
  show ?thesis
  proof (cases "callback hooks")
    case (Handler d' oc' st' hsb' nav' r' l')
    then show ?thesis
      using Some by (auto simp: useCallback_def handleClick_no_link)
  qed
qed

text \<open>
  Claim C10: for an href that is falsy (\<open>undefined\<close> or the empty string), contains \<open>://\<close> or
  begins with \<open>mailto:\<close>, \<open>getLinkURL\<close> returns \<open>undefined\<close>; \<open>useLinkProps\<close> returns that
  href unchanged; its click handler makes no call at all on the navigation object (so it
  never calls \<open>navigate\<close>), whatever the event and whatever the renders before; and
  \<open>useActive\<close> returns \<open>false\<close>.
\<close>

theorem external_href_left_alone:
  assumes "h = HrefUndefined \<or>
           (\<exists>s. h = HrefString s \<and> (s = [] \<or> sublist ''://'' s \<or> prefix ''mailto:'' s))"
  shows "getLinkURL c j h routeURL = Inr None \<and>
         (\<exists>lp hooks.
            useLinkProps c j hsbc ctx disabled hsb h prefetch st oc previous = Inr (lp, hooks) \<and>
            linkHref lp = h \<and>
            (\<forall>event. \<exists>event'. onClick lp event = Inr (event', []))) \<and>
         useActive c j ctx h exact loading = Inr False"
proof -
  from assms have ext: "isExternalHref h"
    by (simp add: isExternalHref_iff)
  then have g: "\<And>r. getLinkURL c j h r = Inr None"
    by (rule getLinkURL_external)
  have "\<exists>lp hooks.
            useLinkProps c j hsbc ctx disabled hsb h prefetch st oc previous = Inr (lp, hooks) \<and>
            linkHref lp = h \<and>
            (\<forall>event. \<exists>event'. onClick lp event = Inr (event', []))"
    using ext g by (simp add: useLinkProps_def Let_def useCallback_no_link)
  moreover have "useActive c j ctx h exact loading = Inr False"
    using g by (simp add: useActive_def Let_def)
  ultimately show ?thesis using g by blast
qed

lemma exampleKept_value:
  "exampleKept =
     Some \<lparr> callback = Handler None None (Some 7) None (Some 0) (Some (exampleURL ''/''))
                          (Some (exampleURL ''/about'')),
            effectDependencies = (Some 0, True, Some ''/about'') \<rparr>"
  by (simp add: exampleKept_def kept_def useLinkProps_def getLinkURL_def indexOf_def
      useCallback_def exampleCreateURLDescriptor_def exampleURL_def exampleContext_def
      exampleRoute_def Let_def)

theorem external_href_left_alone_witness:
  "sublist ''://'' ''http://example.org/a'' \<and>
   getLinkURL exampleCreateURLDescriptor exampleJoinPaths (HrefString ''http://example.org/a'')
     (Some (exampleURL ''/'')) = Inr None \<and>
   (\<exists>lp hooks.
      useLinkProps exampleCreateURLDescriptor exampleJoinPaths None (exampleContext ''/'')
        None None (HrefString ''http://example.org/a'') True None None exampleKept
        = Inr (lp, hooks) \<and>
      linkHref lp = HrefString ''http://example.org/a'' \<and>
      (\<exists>event'. onClick lp plainClick = Inr (event', []))) \<and>
   useActive exampleCreateURLDescriptor exampleJoinPaths (exampleContext ''/'')
     (HrefString ''http://example.org/a'') True False = Inr False"
proof -
  have "indexOf ''http://example.org/a'' ''://'' \<noteq> - 1"
    by (simp add: indexOf_def)
  then have h: "sublist ''://'' ''http://example.org/a''"
    by (simp only: indexOf_contains)
  then have "HrefString ''http://example.org/a'' = HrefUndefined \<or>
      (\<exists>s. HrefString ''http://example.org/a'' = HrefString s \<and>
           (s = [] \<or> sublist ''://'' s \<or> prefix ''mailto:'' s))"
    by blast
  from external_href_left_alone [OF this] h show ?thesis
    by blast
qed

text \<open>
  Claim C9: for a non-external href that resolves to the link URL \<open>l\<close>, and the current
  route \<open>r\<close> (the steady route before the busy one, or the other way round when \<open>loading\<close>
  is set), \<open>useActive\<close> with \<open>exact\<close> returns whether the two pathnames are equal as
  strings, and without \<open>exact\<close> whether the route's pathname with a trailing slash added
  starts with the link's pathname, character by character. The witness is the link
  \<open>/foo\<close> seen from \<open>/foobar/\<close>, which is reported active.
\<close>

theorem useActive_compares_pathnames:
  assumes "(if loading then or_else (busyRoute ctx) (steadyRoute ctx)
            else or_else (steadyRoute ctx) (busyRoute ctx)) = Some r"
      and "getLinkURL c j h (Some (Route.url r)) = Inr (Some l)"
  shows "useActive c j ctx h exact loading =
           Inr (if exact then URLDescriptor.pathname l = URLDescriptor.pathname (Route.url r)
                else prefix (URLDescriptor.pathname l) (modifyTrailingSlash (URLDescriptor.pathname (Route.url r)) Add))"
  using assms by (simp add: useActive_def Let_def indexOf_startsWith)

theorem useActive_compares_pathnames_witness:
  "or_else (steadyRoute (exampleContext ''/foobar/'')) (busyRoute (exampleContext ''/foobar/''))
     = Some (exampleRoute ''/foobar/'') \<and>
   getLinkURL exampleCreateURLDescriptor exampleJoinPaths (HrefString ''/foo'')
     (Some (Route.url (exampleRoute ''/foobar/''))) = Inr (Some (exampleURL ''/foo'')) \<and>
   useActive exampleCreateURLDescriptor exampleJoinPaths (exampleContext ''/foobar/'')
     (HrefString ''/foo'') False False = Inr True \<and>
   useActive exampleCreateURLDescriptor exampleJoinPaths (exampleContext ''/foobar/'')
     (HrefString ''/foo'') True False = Inr False"
proof -
  have r: "(if False then or_else (busyRoute (exampleContext ''/foobar/''))
                                  (steadyRoute (exampleContext ''/foobar/''))
            else or_else (steadyRoute (exampleContext ''/foobar/''))
                         (busyRoute (exampleContext ''/foobar/'')))
           = Some (exampleRoute ''/foobar/'')"
    by (simp add: exampleContext_def)
  have l: "getLinkURL exampleCreateURLDescriptor exampleJoinPaths (HrefString ''/foo'')
     (Some (Route.url (exampleRoute ''/foobar/''))) = Inr (Some (exampleURL ''/foo''))"
    by (simp add: getLinkURL_def indexOf_def exampleCreateURLDescriptor_def exampleURL_def
        exampleRoute_def Let_def)
  have p: "prefix (URLDescriptor.pathname (exampleURL ''/foo''))
             (modifyTrailingSlash (URLDescriptor.pathname (Route.url (exampleRoute ''/foobar/''))) Add)"
    by (simp add: exampleURL_def exampleRoute_def modifyTrailingSlash_def hasTrailingSlash_def)
  have n: "URLDescriptor.pathname (exampleURL ''/foo'') \<noteq> URLDescriptor.pathname (Route.url (exampleRoute ''/foobar/''))"
    by (simp add: exampleURL_def exampleRoute_def)
  show ?thesis
    using r l p n
      useActive_compares_pathnames [OF r l, of False]
      useActive_compares_pathnames [OF r l, of True]
    by simp
qed


text \<open>
  The handler is memoised on \<open>disabled\<close>, \<open>onClick\<close> and the two hrefs only. A second render
  of the link to \<open>/about\<close> that differs from the first in the state alone, \<open>8\<close> for \<open>7\<close>,
  returns the handler of the first render, which navigates with the state \<open>7\<close>; and its
  prefetch effect does not run again.
\<close>

lemma memoised_handler_example:
  "clickLink
     (useLinkProps exampleCreateURLDescriptor exampleJoinPaths None (exampleContext ''/'')
        None None (HrefString ''/about'') True (Some 8) None exampleKept)
     plainClick
   = Inr (preventDefault plainClick,
          [Navigate 0 (exampleURL ''/about'') (Some (NavigateOptions 7))]) \<and>
   map_sum id (\<lambda>r. effect (fst r))
     (useLinkProps exampleCreateURLDescriptor exampleJoinPaths None (exampleContext ''/'')
        None None (HrefString ''/about'') True (Some 8) None exampleKept)
   = Inr []"
  by (simp add: clickLink_def useLinkProps_def getLinkURL_def indexOf_def handleClick_def
      useCallback_def useEffect_def exampleKept_value exampleCreateURLDescriptor_def
      exampleURL_def exampleContext_def exampleRoute_def plainClick_def preventDefault_def
      modifyTrailingSlash_def hasTrailingSlash_def Let_def)



section \<open>Properties of the navigation object\<close>

lemma deliver_fields:
  "historyRoutingObservable (deliver outs nav) = historyRoutingObservable nav \<and>
   BrowserNavigation.router (deliver outs nav) = BrowserNavigation.router nav \<and>
   BrowserNavigation.resolver (deliver outs nav) = BrowserNavigation.resolver nav \<and>
   BrowserNavigation.rootJunction (deliver outs nav) = BrowserNavigation.rootJunction nav \<and>
   BrowserNavigation.rootPath (deliver outs nav) = BrowserNavigation.rootPath nav \<and>
   BrowserNavigation.history (deliver outs nav) = BrowserNavigation.history nav"
  by (induction outs nav rule: deliver.induct) (simp_all add: handleChange_def)

lemma step_roots:
  "BrowserNavigation.rootJunction (fst (step nav e)) = BrowserNavigation.rootJunction nav \<and>
   BrowserNavigation.rootPath (fst (step nav e)) = BrowserNavigation.rootPath nav \<and>
   BrowserNavigation.resolver (fst (step nav e)) = BrowserNavigation.resolver nav"
  by (cases e)
    (simp_all add: observe_def setContext_def getSteadyState_def deliver_fields Let_def
      split: prod.splits)

lemma run_roots:
  "BrowserNavigation.rootJunction (fst (run nav es)) = BrowserNavigation.rootJunction nav \<and>
   BrowserNavigation.rootPath (fst (run nav es)) = BrowserNavigation.rootPath nav \<and>
   BrowserNavigation.resolver (fst (run nav es)) = BrowserNavigation.resolver nav"
proof (induction es arbitrary: nav)
  case Nil
  then show ?case by simp
next
  case (Cons e es)
  have "fst (run nav (e # es)) = fst (run (fst (step nav e)) es)"
    by (simp add: Let_def split: prod.splits)
  then show ?case using Cons [of "fst (step nav e)"] step_roots [of nav e] by simp
qed

lemma constructor_fields:
  "BrowserNavigation.rootJunction (fst (createBrowserNavigation h a options)) = None \<and>
   BrowserNavigation.rootPath (fst (createBrowserNavigation h a options)) = None \<and>
   BrowserNavigation.resolver (fst (createBrowserNavigation h a options)) = a \<and>
   BrowserNavigation.router (fst (createBrowserNavigation h a options)) =
     \<lparr> Router.resolver = a, rootContext = initialRootContext options,
       Router.rootJunction = Some (BrowserNavigationOptions.rootJunction options),
       Router.rootPath = BrowserNavigationOptions.rootPath options \<rparr>"
  by (simp add: createBrowserNavigation_def BrowserNavigation_constructor_def new_Resolver_def
      Let_def)

lemma setContext_router:
  "BrowserNavigation.router (fst (setContext c nav)) =
     \<lparr> Router.resolver = BrowserNavigation.resolver nav, rootContext = Some c,
       Router.rootJunction = BrowserNavigation.rootJunction nav,
       Router.rootPath = BrowserNavigation.rootPath nav \<rparr>"
  by (simp add: setContext_def deliver_fields Let_def split: prod.splits)

text \<open>
  Claim C8: the constructor passes the root junction and root path of the options to the
  first router, and leaves the fields \<open>rootJunction\<close> and \<open>rootPath\<close> of the navigation
  object unassigned; whatever happens afterwards, the router that a call of \<open>setContext\<close>
  constructs has \<open>rootJunction\<close> and \<open>rootPath\<close> \<open>undefined\<close>, not the values of the options.
\<close>

theorem setContext_router_roots_undefined:
  "BrowserNavigation.rootJunction (fst (createBrowserNavigation h a options)) = None \<and>
   BrowserNavigation.rootPath (fst (createBrowserNavigation h a options)) = None \<and>
   Router.rootJunction (BrowserNavigation.router (fst (createBrowserNavigation h a options)))
     = Some (BrowserNavigationOptions.rootJunction options) \<and>
   Router.rootJunction (BrowserNavigation.router
      (fst (setContext c (fst (run (fst (createBrowserNavigation h a options)) es))))) = None \<and>
   Router.rootPath (BrowserNavigation.router
      (fst (setContext c (fst (run (fst (createBrowserNavigation h a options)) es))))) = None"
  by (simp add: setContext_router run_roots constructor_fields)

lemma step_router_resolver:
  assumes "Router.resolver (BrowserNavigation.router nav) = BrowserNavigation.resolver nav"
  shows "Router.resolver (BrowserNavigation.router (fst (step nav e))) =
           BrowserNavigation.resolver nav"
  using assms
  by (cases e)
    (simp_all add: observe_def setContext_router getSteadyState_def deliver_fields Let_def
      split: prod.splits)

lemma run_router_resolver:
  assumes "Router.resolver (BrowserNavigation.router nav) = BrowserNavigation.resolver nav"
  shows "Router.resolver (BrowserNavigation.router (fst (run nav es))) =
           BrowserNavigation.resolver nav"
  using assms
proof (induction es arbitrary: nav)
  case Nil
  then show ?case by simp
next
  case (Cons e es)
  have r: "fst (run nav (e # es)) = fst (run (fst (step nav e)) es)"
    by (simp add: Let_def split: prod.splits)
  have "Router.resolver (BrowserNavigation.router (fst (step nav e))) =
          BrowserNavigation.resolver (fst (step nav e))"
    using step_router_resolver [OF Cons.prems] step_roots [of nav e] by simp
  from Cons.IH [OF this] show ?case
    using r step_roots [of nav e] by simp
qed

lemma setContext_observable:
  "historyRoutingObservable (fst (setContext c nav)) =
     (historyRoutingObservable nav)
       \<lparr> HistoryRoutingObservable.router := BrowserNavigation.router (fst (setContext c nav)),
         request := Suc (request (historyRoutingObservable nav)),
         lastValue := busyState (location (HistoryRoutingObservable.history
                                             (historyRoutingObservable nav))) \<rparr> \<and>
   snd (setContext c nav) =
     [Next (Suc (request (historyRoutingObservable nav)))
        (busyState (location (HistoryRoutingObservable.history (historyRoutingObservable nav))))]"
  by (simp add: setContext_def setRouter_def refresh_def handleChange_def Let_def)

text \<open>
  Claim C2, as stated, fails on the resolver: a navigation object created with root
  context \<open>1\<close> and then given the different context \<open>2\<close> gets a router that is bound to
  the very resolver of the router it replaces, and not to a new one.
\<close>

theorem setContext_same_resolver_counterexample:
  "rootContext (BrowserNavigation.router exampleNavigation) = Some 1 \<and>
   rootContext (BrowserNavigation.router (fst (setContext 2 exampleNavigation))) = Some 2 \<and>
   Router.resolver (BrowserNavigation.router exampleNavigation) = 0 \<and>
   Router.resolver (BrowserNavigation.router (fst (setContext 2 exampleNavigation))) = 0 \<and>
   BrowserNavigation.resolver (fst (setContext 2 exampleNavigation)) = 0"
  by (simp add: exampleNavigation_def exampleOptions_def setContext_router constructor_fields
      setContext_def deliver_fields Let_def split: prod.splits)

text \<open>
  Claim C2, amended: when \<open>setContext\<close> replaces the router, at any moment in the life of
  the navigation object, the new router has the new context as its root context and is
  bound to the resolver that the constructor created, the one of the router it replaces,
  whether or not the contexts match; the new router is handed to the routing observable,
  which starts a new resolution request for the current URL, unchanged, and is busy
  again.
\<close>

theorem setContext_rebinds_and_resolves_again:
  "let nav = fst (run (fst (createBrowserNavigation h a options)) es);
       nav' = fst (setContext c nav);
       obs = historyRoutingObservable nav;
       obs' = historyRoutingObservable nav'
   in rootContext (BrowserNavigation.router nav') = Some c \<and>
      Router.resolver (BrowserNavigation.router nav') =
        Router.resolver (BrowserNavigation.router nav) \<and>
      Router.resolver (BrowserNavigation.router nav') = a \<and>
      HistoryRoutingObservable.router obs' = BrowserNavigation.router nav' \<and>
      request obs' = Suc (request obs) \<and>
      location (HistoryRoutingObservable.history obs') =
        location (HistoryRoutingObservable.history obs) \<and>
      getValue obs' = busyState (location (HistoryRoutingObservable.history obs)) \<and>
      \<not> isSteady (getValue obs') \<and>
      snd (setContext c nav) = [Next (request obs') (getValue obs')]"
proof -
  define nav0 where "nav0 = fst (createBrowserNavigation h a options)"
  have inv: "Router.resolver (BrowserNavigation.router nav0) = BrowserNavigation.resolver nav0"
    by (simp add: nav0_def constructor_fields)
  have a: "BrowserNavigation.resolver nav0 = a"
    by (simp add: nav0_def constructor_fields)
  have "Router.resolver (BrowserNavigation.router (fst (run nav0 es))) = a"
    using run_router_resolver [OF inv] a by simp
  moreover have "BrowserNavigation.resolver (fst (run nav0 es)) = a"
    using run_roots [of nav0 es] a by simp
  ultimately show ?thesis
    unfolding Let_def nav0_def [symmetric]
    by (simp add: setContext_router setContext_observable getValue_def busyState_def Let_def)
qed

section \<open>The steady state of the newest request\<close>













































section \<open>Properties of the resolver\<close>

lemma resolverStep_invokedOnce:
  "invokedOnce res \<Longrightarrow> invokedOnce (fst (resolverStep res e))"
  by (cases e) (auto simp: invokedOnce_def resolve_def settle_def Let_def split: option.splits)

lemma resolverStep_cache:
  "cache (fst (resolverStep res e)) k \<noteq> None \<longleftrightarrow> cache res k \<noteq> None \<or> resolvesKey k e"
  by (cases e) (auto simp: resolve_def settle_def Let_def split: option.splits)

lemma resolverStep_keeps:
  "cache res k = Some h \<Longrightarrow> cache (fst (resolverStep res e)) k = Some h"
  by (cases e) (auto simp: resolve_def settle_def Let_def split: option.splits)

lemma resolverStep_answers:
  "(r, k, h) \<in> set (snd (resolverStep res e)) \<Longrightarrow> cache (fst (resolverStep res e)) k = Some h"
  by (cases e) (auto simp: resolve_def Let_def split: option.splits)

lemma play_invokedOnce: "invokedOnce res \<Longrightarrow> invokedOnce (fst (play res es))"
  by (induction es arbitrary: res) (simp_all add: resolverStep_invokedOnce)

lemma play_cache:
  "cache (fst (play res es)) k \<noteq> None \<longleftrightarrow> cache res k \<noteq> None \<or> (\<exists>e \<in> set es. resolvesKey k e)"
proof (induction es arbitrary: res)
  case Nil
  then show ?case by simp
next
  case (Cons e es)
  show ?case
    using Cons [of "fst (resolverStep res e)"] resolverStep_cache [of res e k] by auto
qed

lemma play_keeps: "cache res k = Some h \<Longrightarrow> cache (fst (play res es)) k = Some h"
  by (induction es arbitrary: res) (simp_all add: resolverStep_keeps)

lemma play_answers:
  "(r, k, h) \<in> set (snd (play res es)) \<Longrightarrow> cache (fst (play res es)) k = Some h"
proof (induction es arbitrary: res)
  case Nil
  then show ?case by simp
next
  case (Cons e es)
  from Cons.prems consider "(r, k, h) \<in> set (snd (resolverStep res e))"
    | "(r, k, h) \<in> set (snd (play (fst (resolverStep res e)) es))"
    by auto
  then show ?case
  proof cases
    case 1
    then have "cache (fst (resolverStep res e)) k = Some h"
      by (rule resolverStep_answers)
    then show ?thesis by (simp add: play_keeps)
  next
    case 2
    then show ?thesis using Cons.IH by simp
  qed
qed

text \<open>
  Claim C1, on the resolver as the spec describes it. Whatever calls and settlements a
  new resolver goes through, from whichever routers and in whichever order, the loader
  is invoked exactly once for every key that is asked for (and never for another); every
  call for the key is answered with the handle in the table, so any two callers of a key
  hold the same handle and see the same state of it, pending or settled.
\<close>

theorem resolve_invokes_loader_once:
  "count_list (loaderCalls (fst (play newResolver es))) k =
     (if \<exists>e \<in> set es. resolvesKey k e then 1 else 0) \<and>
   (\<forall>r h. (r, k, h) \<in> set (snd (play newResolver es)) \<longrightarrow>
      cache (fst (play newResolver es)) k = Some h) \<and>
   (\<forall>r1 h1 r2 h2.
      (r1, k, h1) \<in> set (snd (play newResolver es)) \<and>
      (r2, k, h2) \<in> set (snd (play newResolver es)) \<longrightarrow>
      h1 = h2 \<and> await h1 (fst (play newResolver es)) = await h2 (fst (play newResolver es)))"
proof -
  have "invokedOnce (fst (play newResolver es))"
    by (rule play_invokedOnce) (simp add: invokedOnce_def newResolver_def)
  moreover have "cache (fst (play newResolver es)) k \<noteq> None
      \<longleftrightarrow> (\<exists>e \<in> set es. resolvesKey k e)"
    by (simp only: play_cache) (simp add: newResolver_def)
  ultimately have one: "count_list (loaderCalls (fst (play newResolver es))) k =
     (if \<exists>e \<in> set es. resolvesKey k e then 1 else 0)"
    unfolding invokedOnce_def by (metis (full_types))
  have same: "\<And>r h. (r, k, h) \<in> set (snd (play newResolver es)) \<Longrightarrow>
      cache (fst (play newResolver es)) k = Some h"
    by (rule play_answers)
  have two: "\<And>r1 h1 r2 h2.
      (r1, k, h1) \<in> set (snd (play newResolver es)) \<Longrightarrow>
      (r2, k, h2) \<in> set (snd (play newResolver es)) \<Longrightarrow> h1 = h2"
    using same by (metis option.inject)
  from one same two show ?thesis by blast
qed

lemma play_exampleCalls:
  "snd (play newResolver exampleCalls) =
     [(1, (''/a/b'', False), 0), (2, (''/a/b'', False), 0), (2, (''/a/b'', False), 0)]"
  "loaderCalls (fst (play newResolver exampleCalls)) = [(''/a/b'', False)]"
  "handles (fst (play newResolver exampleCalls)) = [Fulfilled ''page'']"
  "handles (fst (play (newResolver :: (string \<times> bool, string) Resolver)
                   [Resolve (1::nat) (''/a/b'', False), Resolve 2 (''/a/b'', False)])) = [Pending]"
  by (simp_all add: exampleCalls_def newResolver_def resolve_def settle_def Let_def)

theorem resolve_invokes_loader_once_witness:
  "(\<exists>e \<in> set exampleCalls. resolvesKey (''/a/b'', False) e) \<and>
   (1, (''/a/b'', False), 0) \<in> set (snd (play newResolver exampleCalls)) \<and>
   (2, (''/a/b'', False), 0) \<in> set (snd (play newResolver exampleCalls)) \<and>
   loaderCalls (fst (play newResolver exampleCalls)) = [(''/a/b'', False)] \<and>
   count_list (loaderCalls (fst (play newResolver exampleCalls))) (''/a/b'', False) = 1 \<and>
   cache (fst (play newResolver exampleCalls)) (''/a/b'', False) = Some 0 \<and>
   await 0 (fst (play newResolver exampleCalls)) = Some (Fulfilled ''page'') \<and>
   await 0 (fst (play (newResolver :: (string \<times> bool, string) Resolver)
                   [Resolve (1::nat) (''/a/b'', False), Resolve 2 (''/a/b'', False)]))
     = Some Pending"
proof -
  have asked: "\<exists>e \<in> set exampleCalls. resolvesKey (''/a/b'', False) e"
    by (simp add: exampleCalls_def)
  have first: "(1, (''/a/b'', False), 0) \<in> set (snd (play newResolver exampleCalls))"
    and second: "(2, (''/a/b'', False), 0) \<in> set (snd (play newResolver exampleCalls))"
    by (simp_all add: play_exampleCalls(1))
  note once = resolve_invokes_loader_once [where es = exampleCalls and k = "(''/a/b'', False)"]
  have count: "count_list (loaderCalls (fst (play newResolver exampleCalls))) (''/a/b'', False) = 1"
    using once asked by simp
  have entry: "cache (fst (play newResolver exampleCalls)) (''/a/b'', False) = Some 0"
    using once first by blast
  have settled: "await 0 (fst (play newResolver exampleCalls)) = Some (Fulfilled ''page'')"
    by (simp only: await_def play_exampleCalls(3)) simp
  have pending: "await 0 (fst (play (newResolver :: (string \<times> bool, string) Resolver)
                   [Resolve (1::nat) (''/a/b'', False), Resolve 2 (''/a/b'', False)]))
     = Some Pending"
    by (simp only: await_def play_exampleCalls(4)) simp
  show ?thesis
    using asked first second play_exampleCalls(2) count entry settled pending by blast
qed

section \<open>Properties of the route tree walk\<close>

lemma routeOf_type: "type (routeOf t p) = t"
  by (simp add: routeOf_def)

lemma walk_unmatched:
  "matchChild paths rest = None \<Longrightarrow>
     walk r w ps q m paths rest = ([routeOf NotFound (m @ rest)], None)"
  by (subst walk.simps) simp

lemma walk_switch:
  "matchChild paths rest = Some (key, SwitchNode children) \<Longrightarrow>
     walk r w ps q m paths rest =
       (routeOf Switch (extendMatched m key) #
          fst (walk r w ps q (extendMatched m key) children (remainder key rest)),
        snd (walk r w ps q (extendMatched m key) children (remainder key rest)))"
  by (subst walk.simps) (simp add: Let_def split: prod.splits)

lemma walk_page:
  "matchChild paths rest = Some (key, PageNode t g) \<Longrightarrow>
     walk r w ps q m paths rest =
       (if \<not> nothingLeft (remainder key rest)
        then ([routeOf NotFound (extendMatched m key @ remainder key rest)], None)
        else if \<not> w then ([(routeOf Page (extendMatched m key))\<lparr> title := t \<rparr>], None)
        else (case g \<lparr> context' = rootContext r, method' = ''GET'', params = ps,
                        RouterEnv.pathname = extendMatched m key, RouterEnv.query = q,
                        RouterEnv.router = r,
                        unmatchedPathnamePart = remainder key rest \<rparr> of
                Inl e \<Rightarrow> ([(routeOf Page (extendMatched m key))\<lparr> title := t \<rparr>], Some e)
              | Inr c \<Rightarrow> ([(routeOf Page (extendMatched m key))\<lparr> title := t, content := Some c \<rparr>],
                          None)))"
  by (subst walk.simps) (simp add: Let_def)

lemma walk_redirect:
  "matchChild paths rest = Some (key, RedirectNode to) \<Longrightarrow>
     walk r w ps q m paths rest =
       ([(routeOf Redirect (extendMatched m key))
           \<lparr> redirectTo := Some (to \<lparr> context' = rootContext r, method' = ''GET'', params = ps,
                        RouterEnv.pathname = extendMatched m key, RouterEnv.query = q,
                        RouterEnv.router = r,
                        unmatchedPathnamePart = remainder key rest \<rparr>) \<rparr>], None)"
  by (subst walk.simps) (simp add: Let_def)

lemma walk_routes:
  "fst (walk r w ps q m paths rest) \<noteq> [] \<and>
   type (last (fst (walk r w ps q m paths rest))) \<in> {Page, Redirect, NotFound}"
proof (induction r w ps q m paths rest rule: walk.induct)
  case (1 r w ps q m paths rest)
  show ?case
  proof (cases "matchChild paths rest")
    case None
    then show ?thesis by (simp add: walk_unmatched routeOf_type)
  next
    case (Some kc)
    obtain key child where kc: "kc = (key, child)" by (cases kc)
    show ?thesis
    proof (cases child)
      case (SwitchNode children)
      then have m: "matchChild paths rest = Some (key, SwitchNode children)"
        using Some kc by simp
      have "fst (walk r w ps q (extendMatched m key) children (remainder key rest)) \<noteq> [] \<and>
            type (last (fst (walk r w ps q (extendMatched m key) children (remainder key rest))))
              \<in> {Page, Redirect, NotFound}"
        using "1.IH" [OF Some kc [symmetric] refl refl refl SwitchNode] .
      then show ?thesis by (simp add: walk_switch [OF m])
    next
      case (PageNode t g)
      then have "matchChild paths rest = Some (key, PageNode t g)"
        using Some kc by simp
      then show ?thesis by (simp add: walk_page routeOf_type split: sum.splits)
    next
      case (RedirectNode to)
      then have "matchChild paths rest = Some (key, RedirectNode to)"
        using Some kc by simp
      then show ?thesis by (simp add: walk_redirect routeOf_type)
    qed
  qed
qed

lemma walk_noRoute:
  "noRoute paths rest \<Longrightarrow>
     type (last (fst (walk r w ps q m paths rest))) = NotFound \<and>
     snd (walk r w ps q m paths rest) = None"
proof (induction paths rest arbitrary: m rule: noRoute.induct)
  case (noChild paths rest)
  then show ?case by (simp add: walk_unmatched routeOf_type)
next
  case (below paths rest key children)
  then show ?case by (simp add: walk_switch walk_routes)
next
  case (beyond paths rest key t getContent)
  then show ?case by (simp add: walk_page routeOf_type)
qed

text \<open>
  Claim C4, on the router as the spec describes it. Whenever the requested URL is valid,
  \<open>Router.resolve\<close> returns a routing state and throws nothing; the state has routes, its
  last route is the last of them and is a page, a redirect or \<open>NotFound\<close>; and for a
  pathname with no matching child and no index route in the tree, the last route is of
  type \<open>NotFound\<close>, with no error in the state. A redirect at the top of the tree is
  returned as a single route of type \<open>Redirect\<close> that carries its target.
\<close>

theorem not_found_is_a_route:
  assumes "c (HrefString h) = Inr u"
  shows "\<exists>s. Router_resolve c root r h w = Inr s \<and>
              routes s \<noteq> [] \<and> lastRoute s = last (routes s) \<and>
              type (lastRoute s) \<in> {Page, Redirect, NotFound} \<and>
              (noRoute root (URLDescriptor.pathname u) \<longrightarrow>
                 type (lastRoute s) = NotFound \<and> error s = None) \<and>
              (\<forall>key to. matchChild root (URLDescriptor.pathname u) = Some (key, RedirectNode to) \<longrightarrow>
                 length (routes s) = 1 \<and> type (lastRoute s) = Redirect \<and>
                 redirectTo (lastRoute s) \<noteq> None \<and> error s = None)"
proof -
  define res where
    "res = walk r w [] (URLDescriptor.query u) [] root (URLDescriptor.pathname u)"
  have s: "Router_resolve c root r h w =
             Inr \<lparr> RoutingState.url = u, routes = fst res, lastRoute = last (fst res),
                   isSteady = True, isBusy = False, error = snd res \<rparr>"
    using assms by (simp add: Router_resolve_def res_def split: prod.splits)
  have a: "fst res \<noteq> [] \<and> type (last (fst res)) \<in> {Page, Redirect, NotFound}"
    unfolding res_def by (rule walk_routes)
  have b: "noRoute root (URLDescriptor.pathname u) \<longrightarrow>
             type (last (fst res)) = NotFound \<and> snd res = None"
    unfolding res_def using walk_noRoute by blast
  have d: "\<forall>key to. matchChild root (URLDescriptor.pathname u) = Some (key, RedirectNode to) \<longrightarrow>
             length (fst res) = 1 \<and> type (last (fst res)) = Redirect \<and>
             redirectTo (last (fst res)) \<noteq> None \<and> snd res = None"
    unfolding res_def by (simp add: walk_redirect routeOf_type)
  from a b d show ?thesis by (simp add: s)
qed

lemma matchChild_postsTree:
  "matchChild postsTree ''/posts/missing'' =
     Some (''/posts'', SwitchNode [(''/hello'', PageNode (Some ''Hello'') (\<lambda>env. Inr ''hello, world''))])"
  "matchChild postsTree ''/posts/hello'' =
     Some (''/posts'', SwitchNode [(''/hello'', PageNode (Some ''Hello'') (\<lambda>env. Inr ''hello, world''))])"
  "matchChild [(''/hello'', PageNode (Some ''Hello'') (\<lambda>env :: (nat, string) RouterEnv. Inr ''hello, world''))]
     ''/missing'' = None"
  "matchChild [(''/hello'', PageNode (Some ''Hello'') (\<lambda>env :: (nat, string) RouterEnv. Inr ''hello, world''))]
     ''/hello'' = Some (''/hello'', PageNode (Some ''Hello'') (\<lambda>env. Inr ''hello, world''))"
  by (simp_all add: postsTree_def matchesKey_def)

lemma remainder_posts:
  "remainder ''/posts'' ''/posts/missing'' = ''/missing''"
  "remainder ''/posts'' ''/posts/hello'' = ''/hello''"
  "remainder ''/hello'' ''/hello'' = []"
  by (simp_all add: remainder_def)

lemma noRoute_missing: "noRoute postsTree ''/posts/missing''"
proof (rule below)
  show "matchChild postsTree ''/posts/missing'' =
     Some (''/posts'', SwitchNode [(''/hello'', PageNode (Some ''Hello'') (\<lambda>env. Inr ''hello, world''))])"
    by (rule matchChild_postsTree)
  show "noRoute [(''/hello'', PageNode (Some ''Hello'') (\<lambda>env :: (nat, string) RouterEnv. Inr ''hello, world''))]
          (remainder ''/posts'' ''/posts/missing'')"
    by (rule noChild) (simp only: remainder_posts matchChild_postsTree)
qed

lemma walk_posts_hello:
  "walk exampleRouter True [] [] [] postsTree ''/posts/hello'' =
     ([routeOf Switch ''/posts'',
       (routeOf Page ''/posts/hello'')\<lparr> title := Some ''Hello'', content := Some ''hello, world'' \<rparr>],
      None)"
  by (simp add: walk_switch [OF matchChild_postsTree(2)] walk_page [OF matchChild_postsTree(4)]
      remainder_posts extendMatched_def nothingLeft_def)

theorem not_found_is_a_route_witness:
  "exampleCreateURLDescriptor (HrefString ''/posts/missing'') = Inr (exampleURL ''/posts/missing'') \<and>
   noRoute postsTree (URLDescriptor.pathname (exampleURL ''/posts/missing'')) \<and>
   (\<exists>s. Router_resolve exampleCreateURLDescriptor postsTree exampleRouter ''/posts/missing'' True
          = Inr s \<and>
        type (lastRoute s) = NotFound \<and> error s = None) \<and>
   (\<exists>s. Router_resolve exampleCreateURLDescriptor postsTree exampleRouter ''/posts/hello'' True
          = Inr s \<and>
        length (routes s) = 2 \<and> type (lastRoute s) = Page)"
proof -
  have u: "exampleCreateURLDescriptor (HrefString ''/posts/missing'') =
             Inr (exampleURL ''/posts/missing'')"
    by (simp add: exampleCreateURLDescriptor_def exampleURL_def Let_def)
  have n: "noRoute postsTree (URLDescriptor.pathname (exampleURL ''/posts/missing''))"
    using noRoute_missing by (simp add: exampleURL_def)
  have missing: "\<exists>s. Router_resolve exampleCreateURLDescriptor postsTree exampleRouter
                        ''/posts/missing'' True = Inr s \<and>
                      type (lastRoute s) = NotFound \<and> error s = None"
    using not_found_is_a_route
            [where c = exampleCreateURLDescriptor and h = "''/posts/missing''"
               and u = "exampleURL ''/posts/missing''" and root = postsTree
               and r = exampleRouter and w = True]
          u n
    by blast
  have "exampleCreateURLDescriptor (HrefString ''/posts/hello'') = Inr (exampleURL ''/posts/hello'')"
    by (simp add: exampleCreateURLDescriptor_def exampleURL_def Let_def)
  then have hello: "\<exists>s. Router_resolve exampleCreateURLDescriptor postsTree exampleRouter
                        ''/posts/hello'' True = Inr s \<and>
                      length (routes s) = 2 \<and> type (lastRoute s) = Page"
    by (simp add: Router_resolve_def exampleURL_def walk_posts_hello routeOf_type)
  from u n missing hello show ?thesis by blast
qed

section \<open>Properties of the loader environment\<close>







end
